theory Spec2Isabelle
  imports Complex_Main
begin

section \<open>Lantern data model\<close>

text \<open>
  JavaScript numbers are modelled as reals (finite doubles, arithmetic taken exact).
  Where the source guards a value with \<open>x || 0\<close> the value is a \<open>jsnum\<close>, which
  also has the two falsy non-numbers the guard is there for.
\<close>

datatype jsnum = Undefined | NaN | Num real

text \<open>The request descriptor of a network node; only the fields Interactive.ts reads.\<close>

record request =
  url :: string
  resourceType :: string
  priority :: string

text \<open>
  A node is a CPU task (id, duration in microseconds) or a network request (id, request).
  \<open>BaseNode.types\<close> is the tag the source compares \<open>node.type\<close> with.
\<close>

datatype node = CPUNode string real | NetworkNode string request

datatype node_kind = CPU | NETWORK

fun node_id :: "node \<Rightarrow> string" where
  "node_id (CPUNode i d) = i"
| "node_id (NetworkNode i r) = i"

fun node_type :: "node \<Rightarrow> node_kind" where
  "node_type (CPUNode i d) = CPU"
| "node_type (NetworkNode i r) = NETWORK"

text \<open>
  Modelled from the spec: the graph type (BaseNode.ts) is not among the sources. A
  dependency graph in arena form (spec 3 and 9): the nodes, and the dependency edges
  between node ids; \<open>(a, b)\<close> says that \<open>b\<close> is a dependent of \<open>a\<close>.
\<close>

record graph =
  nodes :: "node list"
  edges :: "(string \<times> string) list"

record node_timing =
  startTime :: jsnum
  endTime :: jsnum
  duration :: jsnum

text \<open>\<open>Lantern.Simulation.Result\<close>; the node timings are a JavaScript Map, kept in insertion order.\<close>

record simulation_result =
  timeInMs :: real
  nodeTimings :: "(node \<times> node_timing) list"

text \<open>\<open>Lantern.Simulation.MetricCoefficients\<close> (the source's fields optimistic and pessimistic).\<close>

record metric_coefficients =
  intercept :: real
  optimisticWeight :: real
  pessimisticWeight :: real

text \<open>Graph objects live in a store and are passed by reference.\<close>

type_synonym ref = nat

text \<open>\<open>Lantern.Metrics.Result\<close>.\<close>

record result =
  timing :: real
  optimisticEstimate :: simulation_result
  pessimisticEstimate :: simulation_result
  optimisticGraph :: ref
  pessimisticGraph :: ref

text \<open>
  \<open>Extras\<close>: the results of earlier metrics. \<open>extras_input\<close> is
  \<open>Omit<Extras, 'optimistic'>\<close>, what a caller of compute passes.
\<close>

record extras_input =
  fcpResult :: "result option"
  lcpResult :: "result option"

record extras = extras_input +
  optimistic :: bool

record 'o data =
  graph :: ref
  options :: 'o

text \<open>
  The three error kinds. The source throws a plain Error with a message where a
  required extra is missing; the message is kept.
\<close>

datatype 'f error = MissingDependency string | MalformedGraph | SimulatorFailure 'f

text \<open>
  The store: the graph object at each reference, the next free reference, and the log
  of the graphs handed to the simulator, in call order.
\<close>

record store =
  objs :: "ref \<Rightarrow> graph"
  next_ref :: ref
  sim_calls :: "ref list"

definition alloc :: "graph \<Rightarrow> store \<Rightarrow> ref \<times> store" where
  "alloc g s = (next_ref s, s\<lparr>objs := (objs s)(next_ref s := g), next_ref := Suc (next_ref s)\<rparr>)"

definition es_bind ::
  "(store \<Rightarrow> ('f error + 'a) \<times> store) \<Rightarrow> ('a \<Rightarrow> store \<Rightarrow> ('f error + 'b) \<times> store) \<Rightarrow>
   store \<Rightarrow> ('f error + 'b) \<times> store" where
  "es_bind m k s = (case m s of (Inl e, s') \<Rightarrow> (Inl e, s') | (Inr x, s') \<Rightarrow> k x s')"

definition es_lift :: "'f error + 'a \<Rightarrow> store \<Rightarrow> ('f error + 'a) \<times> store" where
  "es_lift v s = (v, s)"

section \<open>BaseNode.cloneWithRelationships\<close>

text \<open>
  BaseNode.ts is not among the sources; everything in this section is modelled from the
  spec (4.1 and 7). The edges of a clone are computed by eliminating the excluded nodes
  one after the other, and a cycle is detected the same way.
\<close>

text \<open>
  Modelled from the spec: the dependencies (predecessors) and dependents (successors) of
  a node, read off the edge list (spec 3: owned dependent nodes, back-references to
  predecessors).
\<close>

definition dependencies_of :: "string \<Rightarrow> (string \<times> string) list \<Rightarrow> string list" where
  "dependencies_of b es = map fst (filter (\<lambda>(a, c). c = b) es)"

definition dependents_of :: "string \<Rightarrow> (string \<times> string) list \<Rightarrow> string list" where
  "dependents_of b es = map snd (filter (\<lambda>(a, c). a = b) es)"

text \<open>
  Modelled from the spec: \<open>elim_node b es\<close> removes the excluded node \<open>b\<close> from the
  edge list; every pair of edges \<open>a \<rightarrow> b \<rightarrow> c\<close> is replaced by the edge
  \<open>a \<rightarrow> c\<close> (spec 4.1: if A \<rightarrow> B \<rightarrow> C and B is excluded, an edge A \<rightarrow> C
  must exist in the result).
\<close>

definition elim_node :: "string \<Rightarrow> (string \<times> string) list \<Rightarrow> (string \<times> string) list" where
  "elim_node b es =
     remdups (filter (\<lambda>(a, c). a \<noteq> b \<and> c \<noteq> b)
       (List.product (dependencies_of b es) (dependents_of b es) @ es))"

text \<open>
  Modelled from the spec: the cycle check of cloneWithRelationships (spec 4.1, 7). It is
  bounded by the node list: a cycle shows up as a self-loop when its nodes are eliminated
  one after the other.
\<close>

fun has_cycle :: "string list \<Rightarrow> (string \<times> string) list \<Rightarrow> bool" where
  "has_cycle [] es = False"
| "has_cycle (b # bs) es = ((b, b) \<in> set es \<or> has_cycle bs (elim_node b es))"

text \<open>The node ids an edge list mentions.\<close>

definition verts :: "(string \<times> string) list \<Rightarrow> string set" where
  "verts es = fst ` set es \<union> snd ` set es"

text \<open>
  Modelled from the spec: a graph is malformed when an edge names a node that is not in
  the graph (a dangling edge) or when it has a cycle (spec 7, MalformedGraph).
\<close>

definition node_ids :: "graph \<Rightarrow> string list" where
  "node_ids G = remdups (map node_id (nodes G))"

definition dangling :: "graph \<Rightarrow> bool" where
  "dangling G = (\<exists>(a, b) \<in> set (edges G). a \<notin> set (node_ids G) \<or> b \<notin> set (node_ids G))"

definition malformed :: "graph \<Rightarrow> bool" where
  "malformed G = (dangling G \<or> has_cycle (node_ids G) (edges G))"

text \<open>Modelled from the spec: the ids of the nodes the predicate retains, and of the others.\<close>

definition retained_ids :: "(node \<Rightarrow> bool) \<Rightarrow> graph \<Rightarrow> string list" where
  "retained_ids P G = map node_id (filter P (nodes G))"

definition excluded_ids :: "(node \<Rightarrow> bool) \<Rightarrow> graph \<Rightarrow> string list" where
  "excluded_ids P G = filter (\<lambda>i. i \<notin> set (retained_ids P G)) (node_ids G)"

text \<open>
  Modelled from the spec: BaseNode.cloneWithRelationships is not among the sources.
  The spec (4.1): it returns a new tree containing exactly the nodes satisfying the
  predicate, preserving every transitive dependency edge between surviving nodes (if
  A \<rightarrow> B \<rightarrow> C and B is excluded, an edge A \<rightarrow> C exists in the result); it does not
  mutate the source graph; it fails if the source graph contains a cycle, and a cycle or
  a dangling edge is a MalformedGraph (7).
\<close>

definition clone_graph :: "(node \<Rightarrow> bool) \<Rightarrow> graph \<Rightarrow> 'f error + graph" where
  "clone_graph P G =
     (if malformed G then Inl MalformedGraph
      else Inr \<lparr>nodes = filter P (nodes G),
                edges = fold elim_node (excluded_ids P G) (edges G)\<rparr>)"

text \<open>
  Modelled from the spec: cloneWithRelationships on a graph object. The clone is a new
  object in the store; the source object is not written to.
\<close>

definition cloneWithRelationships ::
  "(node \<Rightarrow> bool) \<Rightarrow> ref \<Rightarrow> store \<Rightarrow> ('f error + ref) \<times> store" where
  "cloneWithRelationships P r s =
     (case clone_graph P (objs s r) of
        Inl e \<Rightarrow> (Inl e, s)
      | Inr g \<Rightarrow> (case alloc g s of (r', s') \<Rightarrow> (Inr r', s')))"

section \<open>The simulator\<close>

text \<open>
  Modelled from the spec: the simulator (spec 4.2, 7) is an external collaborator, taken
  as a parameter: a function of the options and the graph it is given, which returns a
  simulation result or fails. Its failure is propagated unchanged as a SimulatorFailure.
  Each call is logged in the store.
\<close>

definition simulate ::
  "('o \<Rightarrow> graph \<Rightarrow> 'f + simulation_result) \<Rightarrow> 'o \<Rightarrow> ref \<Rightarrow> store \<Rightarrow>
   ('f error + simulation_result) \<times> store" where
  "simulate sim opts r s =
     ((case sim opts (objs s r) of Inl f \<Rightarrow> Inl (SimulatorFailure f) | Inr res \<Rightarrow> Inr res),
      s\<lparr>sim_calls := sim_calls s @ [r]\<rparr>)"

section \<open>Metric.compute\<close>

text \<open>
  Modelled from the spec: the extras handed to extractEstimate (spec 4.3 step 3), that is
  \<open>{...extras, optimistic: b}\<close>; spreading an omitted extras gives no fields.
\<close>

definition with_optimistic :: "extras_input option \<Rightarrow> bool \<Rightarrow> extras" where
  "with_optimistic ex b =
     (case ex of
        None \<Rightarrow> \<lparr>fcpResult = None, lcpResult = None, optimistic = b\<rparr>
      | Some e \<Rightarrow> \<lparr>fcpResult = fcpResult e, lcpResult = lcpResult e, optimistic = b\<rparr>)"

text \<open>Modelled from the spec: the linear blend of the two estimates (spec 4.3 step 4).\<close>

definition blend :: "metric_coefficients \<Rightarrow> real \<Rightarrow> real \<Rightarrow> real" where
  "blend c opt pess = intercept c + optimisticWeight c * opt + pessimisticWeight c * pess"

text \<open>
  Modelled from the spec: Metric.compute (Metric.ts) is not among the sources. The spec
  (4.3), with the four hooks of a concrete metric as parameters: prune the graph twice,
  simulate both graphs, extract both estimates, blend them with the coefficients, and
  return the Result; any failure aborts the call.
\<close>

definition Metric_compute ::
  "metric_coefficients \<Rightarrow>
   (ref \<Rightarrow> store \<Rightarrow> ('f error + ref) \<times> store) \<Rightarrow>
   (ref \<Rightarrow> store \<Rightarrow> ('f error + ref) \<times> store) \<Rightarrow>
   (simulation_result \<Rightarrow> extras \<Rightarrow> 'f error + simulation_result) \<Rightarrow>
   ('o \<Rightarrow> graph \<Rightarrow> 'f + simulation_result) \<Rightarrow>
   'o data \<Rightarrow> extras_input option \<Rightarrow> store \<Rightarrow> ('f error + result) \<times> store" where
  "Metric_compute coeffs pruneOptimistic prunePessimistic extractEstimate sim d ex =
     es_bind (pruneOptimistic (graph d)) (\<lambda>og.
     es_bind (prunePessimistic (graph d)) (\<lambda>pg.
     es_bind (simulate sim (options d) og) (\<lambda>rawOptimistic.
     es_bind (simulate sim (options d) pg) (\<lambda>rawPessimistic.
     es_bind (es_lift (extractEstimate rawOptimistic (with_optimistic ex True))) (\<lambda>oe.
     es_bind (es_lift (extractEstimate rawPessimistic (with_optimistic ex False))) (\<lambda>pe.
     es_lift (Inr \<lparr>timing = blend coeffs (timeInMs oe) (timeInMs pe),
                   optimisticEstimate = oe, pessimisticEstimate = pe,
                   optimisticGraph = og, pessimisticGraph = pg\<rparr>)))))))"

section \<open>Interactive.ts\<close>

text \<open>Any CPU task of 20 ms or more ends up being a critical long task on mobile.\<close>

definition CRITICAL_LONG_TASK_THRESHOLD :: real where
  "CRITICAL_LONG_TASK_THRESHOLD = 20"

definition coefficients :: metric_coefficients where
  "coefficients = \<lparr>intercept = 0, optimisticWeight = 45 / 100, pessimisticWeight = 55 / 100\<rparr>"

text \<open>
  getOptimisticGraph: the threshold is adjusted for microseconds; the clone includes
  everything that might be a long task, all scripts and high priority requests, and
  excludes all images.
\<close>

definition getOptimisticGraph :: "ref \<Rightarrow> store \<Rightarrow> ('f error + ref) \<times> store" where
  "getOptimisticGraph dependencyGraph =
     (let minimumCpuTaskDuration = CRITICAL_LONG_TASK_THRESHOLD * 1000 in
      cloneWithRelationships
        (\<lambda>node. case node of
           CPUNode i d \<Rightarrow> d > minimumCpuTaskDuration
         | NetworkNode i req \<Rightarrow>
             (let isImage = (resourceType req = ''Image'');
                  isScript = (resourceType req = ''Script'')
              in \<not> isImage \<and> (isScript \<or> priority req = ''High'' \<or> priority req = ''VeryHigh'')))
        dependencyGraph)"

text \<open>getPessimisticGraph returns the dependency graph it was given.\<close>

definition getPessimisticGraph :: "ref \<Rightarrow> store \<Rightarrow> ('f error + ref) \<times> store" where
  "getPessimisticGraph dependencyGraph s = (Inr dependencyGraph, s)"

text \<open>\<open>x || 0\<close>: x when it is truthy (a number other than 0), else 0.\<close>

fun or_zero :: "jsnum \<Rightarrow> real" where
  "or_zero (Num x) = x"
| "or_zero Undefined = 0"
| "or_zero NaN = 0"

text \<open>\<open>x > d\<close> for a number d: false when x is undefined or NaN.\<close>

fun js_gt :: "jsnum \<Rightarrow> real \<Rightarrow> bool" where
  "js_gt (Num x) d = (x > d)"
| "js_gt Undefined d = False"
| "js_gt NaN d = False"

text \<open>
  getLastLongTaskEndTime: the entries of the map, filtered to the CPU nodes whose timing
  has a duration above the threshold, mapped to their end times, reduced from 0.
\<close>

definition getLastLongTaskEndTime :: "(node \<times> node_timing) list \<Rightarrow> real \<Rightarrow> real" where
  "getLastLongTaskEndTime nts dur =
     foldl (\<lambda>mx x. max (or_zero (Num mx)) (or_zero x)) 0
       (map (\<lambda>(n, t). endTime t)
         (filter (\<lambda>(n, t). if node_type n \<noteq> CPU then False else js_gt (duration t) dur) nts))"

definition getEstimateFromSimulation ::
  "simulation_result \<Rightarrow> extras \<Rightarrow> 'f error + simulation_result" where
  "getEstimateFromSimulation simulationResult ex =
     (case lcpResult ex of
        None \<Rightarrow> Inl (MissingDependency ''missing lcpResult'')
      | Some lcp \<Rightarrow>
          (let lastTaskAt = getLastLongTaskEndTime (nodeTimings simulationResult) 50;
               minimumTime = (if optimistic ex then timeInMs (optimisticEstimate lcp)
                              else timeInMs (pessimisticEstimate lcp))
           in Inr \<lparr>timeInMs = max minimumTime lastTaskAt,
                   nodeTimings = nodeTimings simulationResult\<rparr>))"

text \<open>
  Interactive.compute, with the inherited \<open>super.compute\<close> as a parameter: it checks
  for the LCP result, calls super.compute, and raises the timing to the LCP timing.
\<close>

definition Interactive_compute_with ::
  "('o data \<Rightarrow> extras_input option \<Rightarrow> store \<Rightarrow> ('f error + result) \<times> store) \<Rightarrow>
   'o data \<Rightarrow> extras_input option \<Rightarrow> store \<Rightarrow> ('f error + result) \<times> store" where
  "Interactive_compute_with super_compute d ex s =
     (case (case ex of None \<Rightarrow> None | Some e \<Rightarrow> lcpResult e) of
        None \<Rightarrow> (Inl (MissingDependency ''LCP is required to calculate the Interactive metric''), s)
      | Some lcp \<Rightarrow>
          es_bind (super_compute d ex)
            (\<lambda>metricResult. es_lift (Inr (metricResult\<lparr>timing := max (timing metricResult) (timing lcp)\<rparr>)))
            s)"

text \<open>Interactive.compute, with the compute of Metric that Interactive inherits.\<close>

definition Interactive_compute ::
  "('o \<Rightarrow> graph \<Rightarrow> 'f + simulation_result) \<Rightarrow>
   'o data \<Rightarrow> extras_input option \<Rightarrow> store \<Rightarrow> ('f error + result) \<times> store" where
  "Interactive_compute sim =
     Interactive_compute_with
       (Metric_compute coefficients getOptimisticGraph getPessimisticGraph getEstimateFromSimulation sim)"

text \<open>\<open>Math.round\<close>: the nearest integer, a half rounded up.\<close>

definition Math_round :: "real \<Rightarrow> int" where
  "Math_round x = \<lfloor>x + 1 / 2\<rfloor>"

section \<open>Example inputs\<close>

text \<open>
  A small page: the document, a short parse task, a long script evaluation that depends
  on it, and an image.
\<close>

definition example_graph :: graph where
  "example_graph =
     \<lparr>nodes = [NetworkNode ''root'' \<lparr>url = ''https://example.com/'', resourceType = ''Document'', priority = ''VeryHigh''\<rparr>,
               CPUNode ''parse'' 5000,
               CPUNode ''eval'' 60000,
               NetworkNode ''hero'' \<lparr>url = ''https://example.com/hero.png'', resourceType = ''Image'', priority = ''High''\<rparr>],
      edges = [(''root'', ''parse''), (''parse'', ''eval''), (''root'', ''hero'')]\<rparr>"

definition example_store :: store where
  "example_store = \<lparr>objs = (\<lambda>r. example_graph), next_ref = 1, sim_calls = []\<rparr>"

definition example_data :: "unit data" where
  "example_data = \<lparr>graph = 0, options = ()\<rparr>"

text \<open>A simulator stub: every CPU task ends 1000 ms after its own duration, every request at 900 ms.\<close>

definition example_timing :: "node \<Rightarrow> node_timing" where
  "example_timing n =
     (case n of
        CPUNode i d \<Rightarrow> \<lparr>startTime = Num 1000, endTime = Num (1000 + d / 1000), duration = Num (d / 1000)\<rparr>
      | NetworkNode i req \<Rightarrow> \<lparr>startTime = Num 0, endTime = Num 900, duration = Num 900\<rparr>)"

definition example_sim :: "unit \<Rightarrow> graph \<Rightarrow> string + simulation_result" where
  "example_sim opts g = Inr \<lparr>timeInMs = 1000, nodeTimings = map (\<lambda>n. (n, example_timing n)) (nodes g)\<rparr>"

definition example_lcp :: result where
  "example_lcp =
     \<lparr>timing = 1150,
      optimisticEstimate = \<lparr>timeInMs = 1000, nodeTimings = []\<rparr>,
      pessimisticEstimate = \<lparr>timeInMs = 1200, nodeTimings = []\<rparr>,
      optimisticGraph = 0, pessimisticGraph = 0\<rparr>"

definition example_extras :: "extras_input option" where
  "example_extras = Some \<lparr>fcpResult = None, lcpResult = Some example_lcp\<rparr>"

text \<open>A long task whose simulated end time is negative.\<close>

definition negative_timings :: "(node \<times> node_timing) list" where
  "negative_timings =
     [(CPUNode ''task'' 60000, \<lparr>startTime = Num (- 65), endTime = Num (- 5), duration = Num 60\<rparr>)]"


text \<open>The clone of the example graph that getOptimisticGraph makes.\<close>

definition example_clone :: graph where
  "example_clone =
     \<lparr>nodes = [NetworkNode ''root'' \<lparr>url = ''https://example.com/'', resourceType = ''Document'', priority = ''VeryHigh''\<rparr>,
               CPUNode ''eval'' 60000],
      edges = [(''root'', ''eval'')]\<rparr>"

definition example_estimate :: "graph \<Rightarrow> real \<Rightarrow> simulation_result" where
  "example_estimate g t = \<lparr>timeInMs = t, nodeTimings = map (\<lambda>n. (n, example_timing n)) (nodes g)\<rparr>"

text \<open>What Metric.compute returns for the example, and the store it leaves.\<close>

definition example_metric_result :: result where
  "example_metric_result =
     \<lparr>timing = 1137,
      optimisticEstimate = example_estimate example_clone 1060,
      pessimisticEstimate = example_estimate example_graph 1200,
      optimisticGraph = 1, pessimisticGraph = 0\<rparr>"

definition example_store_after :: store where
  "example_store_after =
     \<lparr>objs = (\<lambda>r. example_graph)(1 := example_clone), next_ref = 2, sim_calls = [1, 0]\<rparr>"

text \<open>A predicate that excludes the parse task only.\<close>

definition not_parse :: "node \<Rightarrow> bool" where
  "not_parse n = (node_id n \<noteq> ''parse'')"

text \<open>Timings in which no CPU task is long.\<close>

definition short_timings :: "(node \<times> node_timing) list" where
  "short_timings =
     [(CPUNode ''parse'' 5000, \<lparr>startTime = Num 1000, endTime = Num 1005, duration = Num 5\<rparr>),
      (NetworkNode ''root'' \<lparr>url = ''https://example.com/'', resourceType = ''Document'', priority = ''VeryHigh''\<rparr>,
       \<lparr>startTime = Num 0, endTime = Num 900, duration = Num 900\<rparr>)]"

text \<open>
  The end times the spec (4.4) takes the maximum of: those of the CPU-node timings whose
  duration is strictly greater than the threshold.
\<close>

definition spec_long_task_endTimes :: "(node \<times> node_timing) list \<Rightarrow> real \<Rightarrow> jsnum list" where
  "spec_long_task_endTimes nts dur =
     map (\<lambda>(n, t). endTime t) (filter (\<lambda>(n, t). node_type n = CPU \<and> js_gt (duration t) dur) nts)"

section \<open>Eliminating nodes from the edge list\<close>

lemma set_dependencies_of: "set (dependencies_of b es) = {a. (a, b) \<in> set es}"
  unfolding dependencies_of_def by force

lemma set_dependents_of: "set (dependents_of b es) = {c. (b, c) \<in> set es}"
  unfolding dependents_of_def by force

lemma set_elim_node:
  "set (elim_node b es) =
     {(a, c). a \<noteq> b \<and> c \<noteq> b \<and> ((a, c) \<in> set es \<or> ((a, b) \<in> set es \<and> (b, c) \<in> set es))}"
  unfolding elim_node_def by (auto simp: set_dependencies_of set_dependents_of)

lemma elim_node_forward:
  assumes "(x, y) \<in> (set es)\<^sup>+" and "x \<noteq> b"
  shows "(y \<noteq> b \<longrightarrow> (x, y) \<in> (set (elim_node b es))\<^sup>+) \<and>
         (y = b \<longrightarrow> (\<exists>a. a \<noteq> b \<and> (x, a) \<in> (set (elim_node b es))\<^sup>* \<and> (a, b) \<in> set es))"
  using assms(1)
proof (induction rule: trancl_induct)
  case (base y)
  show ?case
  proof (cases "y = b")
    case True
    with base assms(2) show ?thesis by blast
  next
    case False
    with base assms(2) have "(x, y) \<in> set (elim_node b es)" by (simp add: set_elim_node)
    with False show ?thesis by blast
  qed
next
  case (step y z)
  show ?case
  proof (cases "y = b")
    case yb: True
    with step.IH obtain a where a: "a \<noteq> b" "(x, a) \<in> (set (elim_node b es))\<^sup>*" "(a, b) \<in> set es"
      by blast
    show ?thesis
    proof (cases "z = b")
      case True
      with a show ?thesis by blast
    next
      case False
      with a step.hyps(2) yb have "(a, z) \<in> set (elim_node b es)" by (simp add: set_elim_node)
      with a(2) have "(x, z) \<in> (set (elim_node b es))\<^sup>+" by (rule rtrancl_into_trancl1)
      with False show ?thesis by blast
    qed
  next
    case ynb: False
    with step.IH have xy: "(x, y) \<in> (set (elim_node b es))\<^sup>+" by blast
    show ?thesis
    proof (cases "z = b")
      case True
      from xy have "(x, y) \<in> (set (elim_node b es))\<^sup>*" by (rule trancl_into_rtrancl)
      with True ynb step.hyps(2) show ?thesis by blast
    next
      case False
      with ynb step.hyps(2) have "(y, z) \<in> set (elim_node b es)" by (simp add: set_elim_node)
      with xy have "(x, z) \<in> (set (elim_node b es))\<^sup>+" by (rule trancl_into_trancl)
      with False show ?thesis by blast
    qed
  qed
qed

lemma elim_node_keeps_path:
  "(x, y) \<in> (set es)\<^sup>+ \<Longrightarrow> x \<noteq> b \<Longrightarrow> y \<noteq> b \<Longrightarrow> (x, y) \<in> (set (elim_node b es))\<^sup>+"
  using elim_node_forward by blast

lemma elim_node_sound: "set (elim_node b es) \<subseteq> (set es)\<^sup>+"
  by (auto simp: set_elim_node intro: r_r_into_trancl)

lemma trancl_within:
  assumes "r \<subseteq> s\<^sup>+"
  shows "r\<^sup>+ \<subseteq> s\<^sup>+"
proof
  fix p assume "p \<in> r\<^sup>+"
  then obtain x y where p: "p = (x, y)" and "(x, y) \<in> r\<^sup>+" by (cases p) auto
  from this(2) have "(x, y) \<in> s\<^sup>+"
  proof (induction rule: trancl_induct)
    case (base y)
    with assms show ?case by blast
  next
    case (step y z)
    from step.hyps(2) assms have "(y, z) \<in> s\<^sup>+" by blast
    with step.IH show ?case by (rule trancl_trans)
  qed
  with p show "p \<in> s\<^sup>+" by simp
qed

lemma elim_node_no_new_path:
  "(x, y) \<in> (set (elim_node b es))\<^sup>+ \<Longrightarrow> (x, y) \<in> (set es)\<^sup>+"
  using trancl_within [OF elim_node_sound] by blast

lemma verts_iff: "v \<in> verts es \<longleftrightarrow> (\<exists>w. (v, w) \<in> set es \<or> (w, v) \<in> set es)"
  unfolding verts_def by force

lemma verts_elim_node: "verts (elim_node b es) \<subseteq> verts es - {b}"
  by (auto simp: verts_iff set_elim_node)

lemma verts_fold: "verts (fold elim_node bs es) \<subseteq> verts es - set bs"
proof (induction bs arbitrary: es)
  case Nil
  show ?case by simp
next
  case (Cons b bs)
  have "verts (fold elim_node bs (elim_node b es)) \<subseteq> verts (elim_node b es) - set bs"
    by (rule Cons.IH)
  with verts_elim_node [of b es] show ?case by auto
qed

lemma fold_keeps_path:
  "(x, y) \<in> (set es)\<^sup>+ \<Longrightarrow> x \<notin> set bs \<Longrightarrow> y \<notin> set bs \<Longrightarrow> (x, y) \<in> (set (fold elim_node bs es))\<^sup>+"
  by (induction bs arbitrary: es) (simp_all add: elim_node_keeps_path)

lemma fold_no_new_path:
  "(x, y) \<in> (set (fold elim_node bs es))\<^sup>+ \<Longrightarrow> (x, y) \<in> (set es)\<^sup>+"
  by (induction bs arbitrary: es) (auto dest: elim_node_no_new_path)

lemma elim_node_cycle:
  "\<not> acyclic (set es) \<longleftrightarrow> (b, b) \<in> set es \<or> \<not> acyclic (set (elim_node b es))"
proof
  assume "\<not> acyclic (set es)"
  then obtain x where x: "(x, x) \<in> (set es)\<^sup>+" by (auto simp: acyclic_def)
  show "(b, b) \<in> set es \<or> \<not> acyclic (set (elim_node b es))"
  proof (cases "(b, b) \<in> set es")
    case True
    then show ?thesis by simp
  next
    case nb: False
    have "\<exists>y. y \<noteq> b \<and> (y, y) \<in> (set es)\<^sup>+"
    proof (cases "x = b")
      case False
      with x show ?thesis by blast
    next
      case True
      with x obtain y where y: "(b, y) \<in> set es" "(y, b) \<in> (set es)\<^sup>*"
        by (blast dest: tranclD)
      from y(1) nb have "y \<noteq> b" by blast
      moreover from y(2) y(1) have "(y, y) \<in> (set es)\<^sup>+" by (rule rtrancl_into_trancl1)
      ultimately show ?thesis by blast
    qed
    then obtain y where "y \<noteq> b" "(y, y) \<in> (set es)\<^sup>+" by blast
    then have "(y, y) \<in> (set (elim_node b es))\<^sup>+" by (simp add: elim_node_keeps_path)
    then show ?thesis by (auto simp: acyclic_def)
  qed
next
  assume "(b, b) \<in> set es \<or> \<not> acyclic (set (elim_node b es))"
  then show "\<not> acyclic (set es)"
    by (auto simp: acyclic_def dest: elim_node_no_new_path)
qed

lemma has_cycle_iff:
  "verts es \<subseteq> set bs \<Longrightarrow> has_cycle bs es \<longleftrightarrow> \<not> acyclic (set es)"
proof (induction bs arbitrary: es)
  case Nil
  have "es = []"
  proof (cases es)
    case (Cons e es')
    then have "fst e \<in> verts es" by (simp add: verts_def)
    with Nil.prems show ?thesis by simp
  qed simp
  then show ?case by (simp add: acyclic_def)
next
  case (Cons b bs)
  from Cons.prems verts_elim_node [of b es] have "verts (elim_node b es) \<subseteq> set bs" by auto
  then have "has_cycle bs (elim_node b es) \<longleftrightarrow> \<not> acyclic (set (elim_node b es))" by (rule Cons.IH)
  then show ?case using elim_node_cycle [of es b] by simp
qed

lemma malformed_iff:
  "malformed G \<longleftrightarrow> dangling G \<or> \<not> acyclic (set (edges G))"
proof (cases "dangling G")
  case True
  then show ?thesis by (simp add: malformed_def)
next
  case False
  then have "verts (edges G) \<subseteq> set (node_ids G)"
    by (auto simp: verts_iff dangling_def)
  then show ?thesis using False by (simp add: malformed_def has_cycle_iff)
qed

section \<open>The reduction of getLastLongTaskEndTime\<close>

lemma Max_insert_max:
  fixes a b :: real
  assumes "finite S"
  shows "Max (insert (max a b) S) = max a (Max (insert b S))"
proof (cases "S = {}")
  case True
  then show ?thesis by simp
next
  case False
  with assms show ?thesis by (simp add: max.assoc)
qed

lemma reduce_Max:
  "foldl (\<lambda>mx x. max (or_zero (Num mx)) (or_zero x)) acc xs = Max (insert acc (set (map or_zero xs)))"
proof (induction xs arbitrary: acc)
  case Nil
  then show ?case by simp
next
  case (Cons x xs)
  have "foldl (\<lambda>mx x. max (or_zero (Num mx)) (or_zero x)) acc (x # xs)
      = foldl (\<lambda>mx x. max (or_zero (Num mx)) (or_zero x)) (max acc (or_zero x)) xs" by simp
  also have "\<dots> = Max (insert (max acc (or_zero x)) (set (map or_zero xs)))" by (rule Cons.IH)
  also have "\<dots> = max acc (Max (insert (or_zero x) (set (map or_zero xs))))"
    by (rule Max_insert_max) simp
  also have "\<dots> = Max (insert acc (set (map or_zero (x # xs))))" by simp
  finally show ?case .
qed

lemma filter_cpu_idem:
  "filter (\<lambda>(n, t). if node_type n \<noteq> CPU then False else js_gt (duration t) dur)
     (filter (\<lambda>(n, t). node_type n = CPU) nts)
   = filter (\<lambda>(n, t). if node_type n \<noteq> CPU then False else js_gt (duration t) dur) nts"
  by (induction nts) auto

lemma long_task_filter_eq:
  "(\<lambda>(n, t). if node_type n \<noteq> CPU then False else js_gt (duration t) dur)
     = (\<lambda>(n, t). node_type n = CPU \<and> js_gt (duration t) dur)"
  by (auto simp: fun_eq_iff)

lemma getLastLongTaskEndTime_Max:
  "getLastLongTaskEndTime nts dur = Max (insert 0 (or_zero ` set (spec_long_task_endTimes nts dur)))"
  unfolding getLastLongTaskEndTime_def spec_long_task_endTimes_def reduce_Max long_task_filter_eq
  by (simp add: image_image)

lemma example_last_long_task:
  "getLastLongTaskEndTime (map (\<lambda>n. (n, example_timing n)) (nodes example_graph)) 50 = 1060"
  by (simp add: getLastLongTaskEndTime_def example_graph_def example_timing_def)

section \<open>The estimate of a branch\<close>

text \<open>
  C3. For every simulation result and every extras that holds an lcpResult,
  getEstimateFromSimulation returns the time max(branchLcpTiming, lastLongTaskEndTime):
  branchLcpTiming is the time of the LCP result's optimistic estimate on the optimistic
  branch and of its pessimistic estimate otherwise, and lastLongTaskEndTime is
  getLastLongTaskEndTime of the simulation's node timings with the threshold 50. The
  node timings are handed on unchanged.
\<close>

theorem getEstimateFromSimulation_max:
  "lcpResult ex = Some lcp \<Longrightarrow>
   getEstimateFromSimulation simulationResult ex =
     Inr \<lparr>timeInMs = max (if optimistic ex then timeInMs (optimisticEstimate lcp)
                          else timeInMs (pessimisticEstimate lcp))
                         (getLastLongTaskEndTime (nodeTimings simulationResult) 50),
          nodeTimings = nodeTimings simulationResult\<rparr>"
  by (simp add: getEstimateFromSimulation_def Let_def)

theorem getEstimateFromSimulation_max_witness:
  "getEstimateFromSimulation
     \<lparr>timeInMs = 1000, nodeTimings = map (\<lambda>n. (n, example_timing n)) (nodes example_graph)\<rparr>
     \<lparr>fcpResult = None, lcpResult = Some example_lcp, optimistic = True\<rparr>
   = Inr \<lparr>timeInMs = 1060, nodeTimings = map (\<lambda>n. (n, example_timing n)) (nodes example_graph)\<rparr>
   \<and> getEstimateFromSimulation
     \<lparr>timeInMs = 1000, nodeTimings = map (\<lambda>n. (n, example_timing n)) (nodes example_graph)\<rparr>
     \<lparr>fcpResult = None, lcpResult = Some example_lcp, optimistic = False\<rparr>
   = Inr \<lparr>timeInMs = 1200, nodeTimings = map (\<lambda>n. (n, example_timing n)) (nodes example_graph)\<rparr>"
  using getEstimateFromSimulation_max
          [of "\<lparr>fcpResult = None, lcpResult = Some example_lcp, optimistic = True\<rparr>" example_lcp
              "\<lparr>timeInMs = 1000, nodeTimings = map (\<lambda>n. (n, example_timing n)) (nodes example_graph)\<rparr>"]
        getEstimateFromSimulation_max
          [of "\<lparr>fcpResult = None, lcpResult = Some example_lcp, optimistic = False\<rparr>" example_lcp
              "\<lparr>timeInMs = 1000, nodeTimings = map (\<lambda>n. (n, example_timing n)) (nodes example_graph)\<rparr>"]
  by (simp add: example_last_long_task) (simp add: example_lcp_def)

section \<open>The end of the last long task\<close>

text \<open>
  C4, as stated, fails where every long task ends at a negative time: the one long task
  of \<open>negative_timings\<close> ends at -5, which is then the maximum end time, and
  getLastLongTaskEndTime returns 0.
\<close>

theorem getLastLongTaskEndTime_negative_counterexample:
  "spec_long_task_endTimes negative_timings 50 = [Num (- 5)]
   \<and> getLastLongTaskEndTime negative_timings 50 = 0"
  by (simp add: getLastLongTaskEndTime_def spec_long_task_endTimes_def negative_timings_def)

text \<open>
  C4, amended. For every node-timings map, getLastLongTaskEndTime with the threshold 50
  returns the maximum of 0 and the end times (an undefined or NaN end time counting as
  0) of the CPU-node timings whose duration is strictly greater than 50; so it is the
  maximum such end time whenever that is not negative. It returns 0 when no CPU-node
  timing has a duration strictly greater than 50, and network-node timings never
  contribute: dropping them leaves the result unchanged.
\<close>

theorem getLastLongTaskEndTime_max0:
  "getLastLongTaskEndTime nts 50 = Max (insert 0 (or_zero ` set (spec_long_task_endTimes nts 50)))
   \<and> (spec_long_task_endTimes nts 50 = [] \<longrightarrow> getLastLongTaskEndTime nts 50 = 0)
   \<and> getLastLongTaskEndTime (filter (\<lambda>(n, t). node_type n = CPU) nts) 50
       = getLastLongTaskEndTime nts 50"
proof (intro conjI impI)
  show "getLastLongTaskEndTime nts 50 = Max (insert 0 (or_zero ` set (spec_long_task_endTimes nts 50)))"
    by (rule getLastLongTaskEndTime_Max)
  show "getLastLongTaskEndTime (filter (\<lambda>(n, t). node_type n = CPU) nts) 50
          = getLastLongTaskEndTime nts 50"
    unfolding getLastLongTaskEndTime_def filter_cpu_idem ..
  assume "spec_long_task_endTimes nts 50 = []"
  then show "getLastLongTaskEndTime nts 50 = 0"
    by (simp add: getLastLongTaskEndTime_Max)
qed

theorem getLastLongTaskEndTime_max0_witness:
  "spec_long_task_endTimes short_timings 50 = [] \<and> getLastLongTaskEndTime short_timings 50 = 0"
proof -
  have none: "spec_long_task_endTimes short_timings 50 = []"
    by (simp add: spec_long_task_endTimes_def short_timings_def)
  with getLastLongTaskEndTime_max0 [of short_timings] show ?thesis by blast
qed

text \<open>
  C10. getLastLongTaskEndTime is a total function whose result, for every node-timings
  map and every threshold, is a number that is not negative. An end time that is
  undefined or NaN is coerced to 0 by the reduction: replacing every end time \<open>x\<close>
  by \<open>x || 0\<close> beforehand does not change the result.
\<close>

theorem getLastLongTaskEndTime_nonneg:
  "0 \<le> getLastLongTaskEndTime nts dur
   \<and> getLastLongTaskEndTime (map (\<lambda>(n, t). (n, t\<lparr>endTime := Num (or_zero (endTime t))\<rparr>)) nts) dur
       = getLastLongTaskEndTime nts dur"
proof
  show "0 \<le> getLastLongTaskEndTime nts dur"
    unfolding getLastLongTaskEndTime_def reduce_Max by simp
  have "map (\<lambda>(n, t). or_zero (endTime t))
          (filter (\<lambda>(n, t). if node_type n \<noteq> CPU then False else js_gt (duration t) dur)
            (map (\<lambda>(n, t). (n, t\<lparr>endTime := Num (or_zero (endTime t))\<rparr>)) nts))
      = map (\<lambda>(n, t). or_zero (endTime t))
          (filter (\<lambda>(n, t). if node_type n \<noteq> CPU then False else js_gt (duration t) dur) nts)"
    by (induction nts) auto
  then show "getLastLongTaskEndTime (map (\<lambda>(n, t). (n, t\<lparr>endTime := Num (or_zero (endTime t))\<rparr>)) nts) dur
       = getLastLongTaskEndTime nts dur"
    unfolding getLastLongTaskEndTime_def reduce_Max
    by (simp add: comp_def case_prod_unfold)
qed


section \<open>Cloning a graph\<close>

lemma cloneWithRelationships_unfold:
  "cloneWithRelationships P r s =
     (if malformed (objs s r) then (Inl MalformedGraph, s)
      else (Inr (next_ref s),
            s\<lparr>objs := (objs s)(next_ref s :=
                  \<lparr>nodes = filter P (nodes (objs s r)),
                   edges = fold elim_node (excluded_ids P (objs s r)) (edges (objs s r))\<rparr>),
              next_ref := Suc (next_ref s)\<rparr>))"
  by (simp add: cloneWithRelationships_def clone_graph_def alloc_def)

lemma retained_not_excluded:
  "a \<in> set (retained_ids P G) \<Longrightarrow> a \<notin> set (excluded_ids P G)"
  by (simp add: excluded_ids_def)

lemma clone_edges_retained:
  assumes "\<not> dangling G"
    and "(a, c) \<in> set (fold elim_node (excluded_ids P G) (edges G))"
  shows "a \<in> set (retained_ids P G) \<and> c \<in> set (retained_ids P G)"
proof -
  from assms(2) have "a \<in> verts (fold elim_node (excluded_ids P G) (edges G))"
    and "c \<in> verts (fold elim_node (excluded_ids P G) (edges G))"
    by (auto simp: verts_iff)
  with verts_fold [of "excluded_ids P G" "edges G"]
  have ac: "a \<in> verts (edges G)" "a \<notin> set (excluded_ids P G)"
           "c \<in> verts (edges G)" "c \<notin> set (excluded_ids P G)"
    by auto
  from assms(1) have "verts (edges G) \<subseteq> set (node_ids G)"
    by (auto simp: verts_iff dangling_def)
  with ac show ?thesis by (auto simp: excluded_ids_def)
qed

text \<open>
  C8. For every well-formed graph (no dangling edge, no cycle) and every predicate P,
  cloneWithRelationships returns a new graph object whose nodes are exactly the nodes of
  the source that satisfy P, in their order; every dependency path of the source between
  two retained nodes is a path of the clone (shortened where it ran through excluded
  nodes); every edge of the clone joins two retained nodes along a path of the source;
  and no graph object that existed before the call, the source among them, is changed.
  A graph with a dangling edge or a cycle is refused with MalformedGraph and the store
  is left as it was.
\<close>

theorem cloneWithRelationships_spec:
  assumes "r < next_ref s"
  shows "(dangling (objs s r) \<or> \<not> acyclic (set (edges (objs s r))) \<longrightarrow>
            cloneWithRelationships P r s = (Inl MalformedGraph, s))
       \<and> (\<not> dangling (objs s r) \<and> acyclic (set (edges (objs s r))) \<longrightarrow>
            (\<exists>r' s'. cloneWithRelationships P r s = (Inr r', s')
               \<and> r' \<noteq> r
               \<and> (\<forall>q < next_ref s. objs s' q = objs s q)
               \<and> nodes (objs s' r') = filter P (nodes (objs s r))
               \<and> (\<forall>a c. a \<in> set (retained_ids P (objs s r)) \<and> c \<in> set (retained_ids P (objs s r))
                      \<and> (a, c) \<in> (set (edges (objs s r)))\<^sup>+
                    \<longrightarrow> (a, c) \<in> (set (edges (objs s' r')))\<^sup>+)
               \<and> (\<forall>a c. (a, c) \<in> set (edges (objs s' r'))
                    \<longrightarrow> a \<in> set (retained_ids P (objs s r)) \<and> c \<in> set (retained_ids P (objs s r))
                        \<and> (a, c) \<in> (set (edges (objs s r)))\<^sup>+)))"
proof (intro conjI impI)
  assume "dangling (objs s r) \<or> \<not> acyclic (set (edges (objs s r)))"
  then have "malformed (objs s r)" by (simp add: malformed_iff)
  then show "cloneWithRelationships P r s = (Inl MalformedGraph, s)"
    by (simp add: cloneWithRelationships_unfold)
next
  let ?G = "objs s r"
  let ?es = "fold elim_node (excluded_ids P ?G) (edges ?G)"
  let ?s' = "s\<lparr>objs := (objs s)(next_ref s := \<lparr>nodes = filter P (nodes ?G), edges = ?es\<rparr>),
               next_ref := Suc (next_ref s)\<rparr>"
  assume wf: "\<not> dangling ?G \<and> acyclic (set (edges ?G))"
  then have "\<not> malformed ?G" by (simp add: malformed_iff)
  then have run: "cloneWithRelationships P r s = (Inr (next_ref s), ?s')"
    by (simp add: cloneWithRelationships_unfold)
  have fresh: "next_ref s \<noteq> r" using assms by simp
  have frame: "\<forall>q < next_ref s. objs ?s' q = objs s q" by simp
  have nodes: "nodes (objs ?s' (next_ref s)) = filter P (nodes ?G)" by simp
  have edges: "edges (objs ?s' (next_ref s)) = ?es" by simp
  have keep: "\<forall>a c. a \<in> set (retained_ids P ?G) \<and> c \<in> set (retained_ids P ?G)
                 \<and> (a, c) \<in> (set (edges ?G))\<^sup>+
               \<longrightarrow> (a, c) \<in> (set (edges (objs ?s' (next_ref s))))\<^sup>+"
    unfolding edges by (blast intro: fold_keeps_path dest: retained_not_excluded)
  have sound: "\<forall>a c. (a, c) \<in> set (edges (objs ?s' (next_ref s)))
               \<longrightarrow> a \<in> set (retained_ids P ?G) \<and> c \<in> set (retained_ids P ?G)
                   \<and> (a, c) \<in> (set (edges ?G))\<^sup>+"
    unfolding edges using wf clone_edges_retained [of ?G _ _ P] fold_no_new_path [of _ _ "excluded_ids P ?G" "edges ?G"]
    by blast
  from run fresh frame nodes keep sound
  show "\<exists>r' s'. cloneWithRelationships P r s = (Inr r', s')
               \<and> r' \<noteq> r
               \<and> (\<forall>q < next_ref s. objs s' q = objs s q)
               \<and> nodes (objs s' r') = filter P (nodes (objs s r))
               \<and> (\<forall>a c. a \<in> set (retained_ids P (objs s r)) \<and> c \<in> set (retained_ids P (objs s r))
                      \<and> (a, c) \<in> (set (edges (objs s r)))\<^sup>+
                    \<longrightarrow> (a, c) \<in> (set (edges (objs s' r')))\<^sup>+)
               \<and> (\<forall>a c. (a, c) \<in> set (edges (objs s' r'))
                    \<longrightarrow> a \<in> set (retained_ids P (objs s r)) \<and> c \<in> set (retained_ids P (objs s r))
                        \<and> (a, c) \<in> (set (edges (objs s r)))\<^sup>+)"
    by blast
qed

lemma example_not_malformed: "\<not> malformed example_graph"
  by (simp add: malformed_def dangling_def node_ids_def example_graph_def elim_node_def
      dependencies_of_def dependents_of_def)

lemma example_wf: "\<not> dangling example_graph \<and> acyclic (set (edges example_graph))"
  using example_not_malformed by (simp add: malformed_iff)

lemma example_objs: "objs example_store r = example_graph"
  by (simp add: example_store_def)

theorem cloneWithRelationships_spec_witness:
  "\<exists>r' s'. cloneWithRelationships not_parse 0 example_store = (Inr r' :: string error + ref, s')
     \<and> r' \<noteq> 0
     \<and> objs s' 0 = example_graph
     \<and> map node_id (nodes (objs s' r')) = [''root'', ''eval'', ''hero'']
     \<and> (''root'', ''eval'') \<in> (set (edges (objs s' r')))\<^sup>+"
proof -
  have valid: "0 < next_ref example_store" by (simp add: example_store_def)
  have wf: "\<not> dangling (objs example_store 0) \<and> acyclic (set (edges (objs example_store 0)))"
    using example_wf by (simp add: example_objs)
  have kept: "''root'' \<in> set (retained_ids not_parse example_graph)"
             "''eval'' \<in> set (retained_ids not_parse example_graph)"
    by (simp_all add: retained_ids_def not_parse_def example_graph_def)
  have "(''root'', ''parse'') \<in> set (edges example_graph)" "(''parse'', ''eval'') \<in> set (edges example_graph)"
    by (simp_all add: example_graph_def)
  then have path: "(''root'', ''eval'') \<in> (set (edges example_graph))\<^sup>+"
    by (rule r_r_into_trancl)
  have nodes: "map node_id (filter not_parse (nodes example_graph)) = [''root'', ''eval'', ''hero'']"
    by (simp add: not_parse_def example_graph_def)
  from cloneWithRelationships_spec [OF valid, of not_parse] wf
  obtain r' s' where c: "cloneWithRelationships not_parse 0 example_store = (Inr r' :: string error + ref, s')"
      "r' \<noteq> 0" "\<forall>q < next_ref example_store. objs s' q = objs example_store q"
      "nodes (objs s' r') = filter not_parse (nodes (objs example_store 0))"
      "\<forall>a c. a \<in> set (retained_ids not_parse (objs example_store 0))
             \<and> c \<in> set (retained_ids not_parse (objs example_store 0))
             \<and> (a, c) \<in> (set (edges (objs example_store 0)))\<^sup>+
           \<longrightarrow> (a, c) \<in> (set (edges (objs s' r')))\<^sup>+"
    by blast
  from c(3) valid have frame: "objs s' 0 = example_graph" by (simp add: example_objs)
  from c(4) nodes have ids: "map node_id (nodes (objs s' r')) = [''root'', ''eval'', ''hero'']"
    by (simp add: example_objs)
  from c(5) kept path have short: "(''root'', ''eval'') \<in> (set (edges (objs s' r')))\<^sup>+"
    by (simp add: example_objs)
  show ?thesis
    by (rule exI [of _ r'], rule exI [of _ s']) (intro conjI c(1) c(2) frame ids short)
qed


section \<open>The optimistic and the pessimistic graph\<close>

text \<open>
  C1. For every well-formed dependency graph, getOptimisticGraph succeeds and the nodes of
  the clone it returns are exactly the nodes of the graph that are a CPU task whose
  duration is strictly greater than 20 * 1000 microseconds, or a network request that is
  not an image and is a script or has priority High or VeryHigh; every other node is
  left out.
\<close>

theorem getOptimisticGraph_retains:
  "\<not> dangling (objs s g) \<Longrightarrow> acyclic (set (edges (objs s g))) \<Longrightarrow>
   \<exists>r' s'. getOptimisticGraph g s = (Inr r', s')
     \<and> nodes (objs s' r') =
         filter (\<lambda>node. case node of
                   CPUNode i d \<Rightarrow> d > 20 * 1000
                 | NetworkNode i req \<Rightarrow>
                     resourceType req \<noteq> ''Image''
                     \<and> (resourceType req = ''Script'' \<or> priority req = ''High'' \<or> priority req = ''VeryHigh''))
           (nodes (objs s g))"
proof -
  assume "\<not> dangling (objs s g)" and "acyclic (set (edges (objs s g)))"
  then have "\<not> malformed (objs s g)" by (simp add: malformed_iff)
  then show ?thesis
    by (simp add: getOptimisticGraph_def cloneWithRelationships_unfold CRITICAL_LONG_TASK_THRESHOLD_def Let_def)
qed

theorem getOptimisticGraph_retains_witness:
  "\<exists>r' s'. getOptimisticGraph 0 example_store = (Inr r' :: string error + ref, s') \<and> nodes (objs s' r') =
     [NetworkNode ''root'' \<lparr>url = ''https://example.com/'', resourceType = ''Document'', priority = ''VeryHigh''\<rparr>,
      CPUNode ''eval'' 60000]"
proof -
  have "\<not> dangling (objs example_store 0)" and "acyclic (set (edges (objs example_store 0)))"
    using example_wf by (simp_all add: example_objs)
  from getOptimisticGraph_retains [OF this]
  show ?thesis by (simp add: example_objs) (simp add: example_graph_def)
qed


section \<open>Running the example\<close>

lemma example_getOptimisticGraph:
  "getOptimisticGraph 0 example_store =
     (Inr 1, \<lparr>objs = (\<lambda>r. example_graph)(1 := example_clone), next_ref = 2, sim_calls = []\<rparr>)"
  by (simp add: getOptimisticGraph_def cloneWithRelationships_unfold example_not_malformed
        example_store_def CRITICAL_LONG_TASK_THRESHOLD_def)
     (simp add: example_graph_def example_clone_def excluded_ids_def retained_ids_def node_ids_def
        elim_node_def dependencies_of_def dependents_of_def)

lemma example_metric_run:
  "Metric_compute coefficients getOptimisticGraph getPessimisticGraph getEstimateFromSimulation
     example_sim example_data example_extras example_store
   = (Inr example_metric_result, example_store_after)"
  by (simp add: Metric_compute_def es_bind_def es_lift_def example_data_def example_getOptimisticGraph
      getPessimisticGraph_def simulate_def example_sim_def
      getEstimateFromSimulation_def with_optimistic_def example_extras_def example_lcp_def
      example_last_long_task example_metric_result_def example_estimate_def example_store_after_def
      blend_def coefficients_def)
     (simp add: getLastLongTaskEndTime_def example_clone_def example_timing_def)

lemma example_lcp_of:
  "(case example_extras of None \<Rightarrow> None | Some e \<Rightarrow> lcpResult e) = Some example_lcp"
  by (simp add: example_extras_def)

lemma example_run:
  "Interactive_compute example_sim example_data example_extras example_store
   = (Inr (example_metric_result\<lparr>timing := 1150\<rparr>), example_store_after)"
  by (simp add: Interactive_compute_def Interactive_compute_with_def example_lcp_of example_metric_run
        es_bind_def es_lift_def)
     (simp add: example_lcp_def example_metric_result_def)


section \<open>Interactive.compute\<close>

text \<open>
  C2. Whenever Interactive.compute succeeds with an lcpResult among the extras, the
  timing of the result is at least the timing of the LCP result. This holds whatever the
  inherited compute returns: the clamp is the last step of Interactive.compute.
\<close>

theorem Interactive_compute_timing_ge_lcp:
  "ex = Some e \<Longrightarrow> lcpResult e = Some lcp \<Longrightarrow>
   Interactive_compute_with super_compute d ex s = (Inr res, s') \<Longrightarrow>
   timing lcp \<le> timing res"
  by (auto simp: Interactive_compute_with_def es_bind_def es_lift_def split: prod.splits sum.splits)

theorem Interactive_compute_timing_ge_lcp_witness:
  "timing example_lcp = 1150
   \<and> Interactive_compute example_sim example_data example_extras example_store
       = (Inr (example_metric_result\<lparr>timing := 1150\<rparr>), example_store_after)
   \<and> timing example_lcp \<le> timing (example_metric_result\<lparr>timing := 1150\<rparr>)"
proof -
  have ex: "example_extras = Some \<lparr>fcpResult = None, lcpResult = Some example_lcp\<rparr>"
    by (simp add: example_extras_def)
  have lcp: "lcpResult \<lparr>fcpResult = None, lcpResult = Some example_lcp\<rparr> = Some example_lcp" by simp
  have run: "Interactive_compute_with
       (Metric_compute coefficients getOptimisticGraph getPessimisticGraph getEstimateFromSimulation example_sim)
       example_data example_extras example_store
     = (Inr (example_metric_result\<lparr>timing := 1150\<rparr>), example_store_after)"
    using example_run by (simp add: Interactive_compute_def)
  from Interactive_compute_timing_ge_lcp [OF ex lcp run] example_run
  show ?thesis by (simp add: example_lcp_def)
qed

text \<open>
  C5. The TTI coefficients are intercept 0, optimistic 0.45 and pessimistic 0.55. The
  timing that Metric.compute returns for Interactive is
  0 + 0.45 * optimisticEstimate.timeInMs + 0.55 * pessimisticEstimate.timeInMs, and
  Interactive.compute returns the maximum of that blend and the LCP timing. For the
  estimates 1107 and 1134 the blend rounds to 1122.
\<close>

theorem Interactive_compute_blend:
  "coefficients = \<lparr>intercept = 0, optimisticWeight = 0.45, pessimisticWeight = 0.55\<rparr>
   \<and> (\<forall>res s'. Metric_compute coefficients getOptimisticGraph getPessimisticGraph getEstimateFromSimulation
                sim d ex s = (Inr res, s')
        \<longrightarrow> timing res = 0 + 0.45 * timeInMs (optimisticEstimate res)
                           + 0.55 * timeInMs (pessimisticEstimate res))
   \<and> (\<forall>res s'. Interactive_compute sim d ex s = (Inr res, s')
        \<longrightarrow> (\<exists>lcp. (case ex of None \<Rightarrow> None | Some e \<Rightarrow> lcpResult e) = Some lcp
               \<and> timing res = max (0 + 0.45 * timeInMs (optimisticEstimate res)
                                      + 0.55 * timeInMs (pessimisticEstimate res))
                                   (timing lcp)))
   \<and> blend coefficients 1107 1134 = 0 + 0.45 * 1107 + 0.55 * 1134
   \<and> Math_round (blend coefficients 1107 1134) = 1122"
proof (intro conjI allI impI)
  show "coefficients = \<lparr>intercept = 0, optimisticWeight = 0.45, pessimisticWeight = 0.55\<rparr>"
    by (simp add: coefficients_def)
next
  fix res s'
  assume "Metric_compute coefficients getOptimisticGraph getPessimisticGraph getEstimateFromSimulation
                sim d ex s = (Inr res, s')"
  then show "timing res = 0 + 0.45 * timeInMs (optimisticEstimate res)
                           + 0.55 * timeInMs (pessimisticEstimate res)"
    by (auto simp: Metric_compute_def es_bind_def es_lift_def blend_def coefficients_def
             split: prod.splits sum.splits)
next
  fix res s'
  assume "Interactive_compute sim d ex s = (Inr res, s')"
  then show "\<exists>lcp. (case ex of None \<Rightarrow> None | Some e \<Rightarrow> lcpResult e) = Some lcp
               \<and> timing res = max (0 + 0.45 * timeInMs (optimisticEstimate res)
                                      + 0.55 * timeInMs (pessimisticEstimate res))
                                   (timing lcp)"
    by (auto simp: Interactive_compute_def Interactive_compute_with_def
                   Metric_compute_def es_bind_def es_lift_def blend_def coefficients_def
             split: prod.splits sum.splits option.splits)
next
  show "blend coefficients 1107 1134 = 0 + 0.45 * 1107 + 0.55 * 1134"
    by (simp add: blend_def coefficients_def)
  show "Math_round (blend coefficients 1107 1134) = 1122"
    by (simp add: Math_round_def blend_def coefficients_def)
qed

theorem Interactive_compute_blend_witness:
  "Metric_compute coefficients getOptimisticGraph getPessimisticGraph getEstimateFromSimulation
     example_sim example_data example_extras example_store
     = (Inr example_metric_result, example_store_after)
   \<and> timeInMs (optimisticEstimate example_metric_result) = 1060
   \<and> timeInMs (pessimisticEstimate example_metric_result) = 1200
   \<and> timing example_metric_result = 0 + 0.45 * 1060 + 0.55 * 1200"
proof -
  from Interactive_compute_blend [of example_sim example_data example_extras example_store]
    example_metric_run
  have "timing example_metric_result = 0 + 0.45 * timeInMs (optimisticEstimate example_metric_result)
          + 0.55 * timeInMs (pessimisticEstimate example_metric_result)"
    by blast
  with example_metric_run show ?thesis
    by (simp add: example_metric_result_def example_estimate_def)
qed

lemma Metric_compute_not_missing:
  "(case ex of None \<Rightarrow> None | Some e \<Rightarrow> lcpResult e) = Some lcp \<Longrightarrow>
   fst (Metric_compute coefficients getOptimisticGraph getPessimisticGraph getEstimateFromSimulation
          sim d ex s) \<noteq> Inl (MissingDependency msg)"
  by (auto simp: Metric_compute_def es_bind_def es_lift_def getOptimisticGraph_def
        cloneWithRelationships_unfold getPessimisticGraph_def simulate_def
        getEstimateFromSimulation_def with_optimistic_def Let_def
      split: prod.splits sum.splits option.splits if_splits)

text \<open>
  C6. Interactive.compute fails with a MissingDependency error exactly when the
  lcpResult is absent (the extras omitted, or without an lcpResult); it then returns the
  store as it was: no graph has been cloned and the simulator has not been called.
  getEstimateFromSimulation fails with MissingDependency exactly when its extras have no
  lcpResult.
\<close>

theorem Interactive_compute_missing_lcp:
  "((\<exists>msg. fst (Interactive_compute sim d ex s) = Inl (MissingDependency msg))
      \<longleftrightarrow> (case ex of None \<Rightarrow> None | Some e \<Rightarrow> lcpResult e) = None)
   \<and> ((case ex of None \<Rightarrow> None | Some e \<Rightarrow> lcpResult e) = None \<longrightarrow>
        Interactive_compute sim d ex s
          = (Inl (MissingDependency ''LCP is required to calculate the Interactive metric''), s))
   \<and> ((\<exists>msg. getEstimateFromSimulation simulationResult ex' = (Inl (MissingDependency msg) :: 'f error + simulation_result))
      \<longleftrightarrow> lcpResult ex' = None)
   \<and> (lcpResult ex' = None \<longrightarrow>
        getEstimateFromSimulation simulationResult ex'
          = (Inl (MissingDependency ''missing lcpResult'') :: 'f error + simulation_result))"
  for sim :: "'o \<Rightarrow> graph \<Rightarrow> 'f + simulation_result"
proof (intro conjI impI)
  show "(\<exists>msg. fst (Interactive_compute sim d ex s) = Inl (MissingDependency msg))
      \<longleftrightarrow> (case ex of None \<Rightarrow> None | Some e \<Rightarrow> lcpResult e) = None"
  proof (cases "case ex of None \<Rightarrow> None | Some e \<Rightarrow> lcpResult e")
    case None
    then show ?thesis by (simp add: Interactive_compute_def Interactive_compute_with_def)
  next
    case (Some lcp)
    have "fst (Interactive_compute sim d ex s) \<noteq> Inl (MissingDependency msg)" for msg
      using Metric_compute_not_missing [OF Some, of sim d s msg]
      by (auto simp: Interactive_compute_def Interactive_compute_with_def Some es_bind_def es_lift_def
               split: prod.splits sum.splits)
    with Some show ?thesis by simp
  qed
next
  assume "(case ex of None \<Rightarrow> None | Some e \<Rightarrow> lcpResult e) = None"
  then show "Interactive_compute sim d ex s
          = (Inl (MissingDependency ''LCP is required to calculate the Interactive metric''), s)"
    by (simp add: Interactive_compute_def Interactive_compute_with_def)
next
  show "(\<exists>msg. getEstimateFromSimulation simulationResult ex' = (Inl (MissingDependency msg) :: 'f error + simulation_result))
      \<longleftrightarrow> lcpResult ex' = None"
    by (auto simp: getEstimateFromSimulation_def Let_def split: option.splits)
next
  assume "lcpResult ex' = None"
  then show "getEstimateFromSimulation simulationResult ex'
          = (Inl (MissingDependency ''missing lcpResult'') :: 'f error + simulation_result)"
    by (simp add: getEstimateFromSimulation_def)
qed

theorem Interactive_compute_missing_lcp_witness:
  "Interactive_compute example_sim example_data None example_store
     = (Inl (MissingDependency ''LCP is required to calculate the Interactive metric''), example_store)
   \<and> Interactive_compute example_sim example_data (Some \<lparr>fcpResult = Some example_lcp, lcpResult = None\<rparr>) example_store
     = (Inl (MissingDependency ''LCP is required to calculate the Interactive metric''), example_store)
   \<and> getEstimateFromSimulation (example_estimate example_graph 1000)
        \<lparr>fcpResult = None, lcpResult = None, optimistic = True\<rparr>
     = (Inl (MissingDependency ''missing lcpResult'') :: string error + simulation_result)"
  using Interactive_compute_missing_lcp [of example_sim example_data None example_store
          "example_estimate example_graph 1000" "\<lparr>fcpResult = None, lcpResult = None, optimistic = True\<rparr>"]
        Interactive_compute_missing_lcp [of example_sim example_data
          "Some \<lparr>fcpResult = Some example_lcp, lcpResult = None\<rparr>" example_store
          "example_estimate example_graph 1000" "\<lparr>fcpResult = None, lcpResult = None, optimistic = True\<rparr>"]
  by simp

lemmas Interactive_compute_defs =
  Interactive_compute_def Interactive_compute_with_def Metric_compute_def es_bind_def es_lift_def
  getOptimisticGraph_def cloneWithRelationships_unfold getPessimisticGraph_def simulate_def Let_def

lemma Interactive_compute_frame:
  "q < next_ref s \<Longrightarrow> objs (snd (Interactive_compute sim d ex s)) q = objs s q"
  by (auto simp: Interactive_compute_defs split: prod.splits sum.splits option.splits)

text \<open>
  C7, as stated, fails for the pessimistic graph: getPessimisticGraph returns the
  reference it was given, so the pessimisticGraph of the result is the input graph object
  itself, and the call allocates one graph object, not two.
\<close>

theorem Interactive_compute_pessimistic_counterexample:
  "getPessimisticGraph (graph example_data) example_store
     = (Inr (graph example_data) :: string error + ref, example_store)
   \<and> map_sum id pessimisticGraph
     (fst (Interactive_compute example_sim example_data example_extras example_store))
     = Inr (graph example_data)
   \<and> next_ref (snd (Interactive_compute example_sim example_data example_extras example_store))
     = Suc (next_ref example_store)"
  by (simp add: example_run getPessimisticGraph_def)
     (simp add: example_metric_result_def example_data_def example_store_after_def example_store_def)

text \<open>
  C7, amended. Interactive.compute never changes a graph object that existed before the
  call, the caller's base graph among them. When it succeeds, the optimisticGraph of the
  result is a new object, distinct from the input graph object, and the only one the call
  allocates; the pessimisticGraph is the input graph object itself, and so the full,
  unpruned graph.
\<close>

theorem Interactive_compute_graphs:
  assumes "graph d < next_ref s"
  shows "(\<forall>q < next_ref s. objs (snd (Interactive_compute sim d ex s)) q = objs s q)
       \<and> (\<forall>res s'. Interactive_compute sim d ex s = (Inr res, s') \<longrightarrow>
             optimisticGraph res = next_ref s \<and> optimisticGraph res \<noteq> graph d
           \<and> pessimisticGraph res = graph d
           \<and> objs s' (pessimisticGraph res) = objs s (graph d)
           \<and> next_ref s' = Suc (next_ref s))"
proof (intro conjI allI impI)
  fix q assume "q < next_ref s"
  then show "objs (snd (Interactive_compute sim d ex s)) q = objs s q"
    by (rule Interactive_compute_frame)
next
  fix res s'
  assume run: "Interactive_compute sim d ex s = (Inr res, s')"
  then show "optimisticGraph res = next_ref s" "pessimisticGraph res = graph d"
    "next_ref s' = Suc (next_ref s)"
    by (auto simp: Interactive_compute_defs split: prod.splits sum.splits option.splits if_splits)
  with assms show "optimisticGraph res \<noteq> graph d" by simp
  from Interactive_compute_frame [OF assms, of sim d ex] run
  have "objs s' (graph d) = objs s (graph d)" by simp
  with \<open>pessimisticGraph res = graph d\<close> show "objs s' (pessimisticGraph res) = objs s (graph d)"
    by simp
qed

theorem Interactive_compute_graphs_witness:
  "graph example_data < next_ref example_store
   \<and> Interactive_compute example_sim example_data example_extras example_store
       = (Inr (example_metric_result\<lparr>timing := 1150\<rparr>), example_store_after)
   \<and> optimisticGraph (example_metric_result\<lparr>timing := 1150\<rparr>) = 1
   \<and> pessimisticGraph (example_metric_result\<lparr>timing := 1150\<rparr>) = 0
   \<and> objs example_store_after 0 = example_graph
   \<and> next_ref example_store_after = 2"
proof -
  have valid: "graph example_data < next_ref example_store"
    by (simp add: example_data_def example_store_def)
  from Interactive_compute_graphs [OF valid, of example_sim example_extras] example_run
  have "optimisticGraph (example_metric_result\<lparr>timing := 1150\<rparr>) = next_ref example_store
      \<and> pessimisticGraph (example_metric_result\<lparr>timing := 1150\<rparr>) = graph example_data
      \<and> objs example_store_after (pessimisticGraph (example_metric_result\<lparr>timing := 1150\<rparr>))
          = objs example_store (graph example_data)
      \<and> next_ref example_store_after = Suc (next_ref example_store)"
    by blast
  with valid example_run show ?thesis
    by (simp add: example_data_def example_store_def example_metric_result_def)
qed

end
